theory Spec2Isabelle
  imports Main "HOL-Library.AList" "HOL-Library.Char_ord"
begin

section \<open>Python strings\<close>

text \<open>
  A Python \<open>str\<close> is modelled as a \<open>string\<close> whose characters are the code points
  0 to 255 (ASCII and Latin-1); file names with code points beyond 255 are outside the
  model. The functions below are the methods of \<open>str\<close> that \<open>readers.py\<close> and
  \<open>pathlib\<close> use on file names.
\<close>

definition py_lower_char :: "char \<Rightarrow> char" where
  \<comment> \<open>\<open>str.lower()\<close> on one code point below 256: A-Z and the Latin-1 capitals.\<close>
  "py_lower_char c =
     (let n = (of_char c :: nat)
      in if (65 \<le> n \<and> n \<le> 90) \<or> (192 \<le> n \<and> n \<le> 222 \<and> n \<noteq> 215)
         then char_of (n + 32) else c)"

definition py_lower :: "string \<Rightarrow> string" where
  "py_lower s = map py_lower_char s"

definition count_dots :: "string \<Rightarrow> nat" where
  \<comment> \<open>\<open>ext.count(".")\<close>\<close>
  "count_dots s = count_list s (CHR ''.'')"

fun split_on :: "char \<Rightarrow> string \<Rightarrow> string list" where
  \<comment> \<open>\<open>s.split(sep)\<close> for a separator of one character\<close>
  "split_on sep [] = [[]]"
| "split_on sep (c # cs) =
     (if c = sep then [] # split_on sep cs
      else (c # hd (split_on sep cs)) # tl (split_on sep cs))"

definition lstrip_dots :: "string \<Rightarrow> string" where
  \<comment> \<open>\<open>name.lstrip(".")\<close>\<close>
  "lstrip_dots s = dropWhile (\<lambda>c. c = CHR ''.'') s"

definition endswith_dot :: "string \<Rightarrow> bool" where
  \<comment> \<open>\<open>name.endswith(".")\<close>\<close>
  "endswith_dot s = (s \<noteq> [] \<and> last s = CHR ''.'')"

definition py_slice_from :: "'a list \<Rightarrow> int \<Rightarrow> 'a list" where
  \<comment> \<open>\<open>xs[i:]\<close>: a negative index counts from the end, and the slice is clamped to the list\<close>
  "py_slice_from xs i =
     (let j = (if i < 0 then max (i + int (length xs)) 0 else i) in drop (nat j) xs)"

definition py_range :: "int \<Rightarrow> int \<Rightarrow> int list" where
  \<comment> \<open>\<open>range(lo, hi)\<close>\<close>
  "py_range lo hi = [lo..hi - 1]"

fun py_max :: "nat list \<Rightarrow> string + nat" where
  \<comment> \<open>\<open>max(xs)\<close> of a list of counts; Inl is the message of the ValueError on an empty list\<close>
  "py_max [] = Inl ''max() arg is an empty sequence''"
| "py_max (x # xs) = Inr (fold max xs x)"

subsection \<open>Numbers and strings as text\<close>

definition digit_char :: "nat \<Rightarrow> char" where
  "digit_char d = char_of (48 + d)"

fun show_nat :: "nat \<Rightarrow> string" where
  "show_nat n = (if n < 10 then [digit_char n] else show_nat (n div 10) @ [digit_char (n mod 10)])"

declare show_nat.simps [simp del]

definition show_int :: "int \<Rightarrow> string" where
  "show_int i = (if i < 0 then CHR ''-'' # show_nat (nat (- i)) else show_nat (nat i))"

definition hex_digit :: "nat \<Rightarrow> char" where
  "hex_digit d = (if d < 10 then char_of (48 + d) else char_of (87 + d))"

definition py_printable :: "char \<Rightarrow> bool" where
  \<comment> \<open>\<open>str.isprintable()\<close> on one code point below 256\<close>
  "py_printable c =
     (let n = (of_char c :: nat) in 32 \<le> n \<and> \<not> (127 \<le> n \<and> n \<le> 160) \<and> n \<noteq> 173)"

definition repr_quote :: "string \<Rightarrow> char" where
  \<comment> \<open>\<open>repr\<close> of a string uses double quotes only when the string has a single quote
      and no double quote\<close>
  "repr_quote s = (if CHR 0x27 \<in> set s \<and> CHR 0x22 \<notin> set s then CHR 0x22 else CHR 0x27)"

definition repr_char :: "char \<Rightarrow> char \<Rightarrow> string" where
  "repr_char q c =
     (if c = q \<or> c = CHR 0x5C then [CHR 0x5C, c]
      else if c = CHR 0x09 then [CHR 0x5C, CHR ''t'']
      else if c = CHR 0x0A then [CHR 0x5C, CHR ''n'']
      else if c = CHR 0x0D then [CHR 0x5C, CHR ''r'']
      else if py_printable c then [c]
      else [CHR 0x5C, CHR ''x'', hex_digit (of_char c div 16), hex_digit (of_char c mod 16)])"

definition py_repr :: "string \<Rightarrow> string" where
  \<comment> \<open>\<open>repr(s)\<close> of a string\<close>
  "py_repr s = (let q = repr_quote s in [q] @ concat (map (repr_char q) s) @ [q])"

fun join :: "string \<Rightarrow> string list \<Rightarrow> string" where
  \<comment> \<open>\<open>sep.join(xs)\<close>\<close>
  "join sep [] = []"
| "join sep [x] = x"
| "join sep (x # y # ys) = x @ sep @ join sep (y # ys)"

definition py_repr_list :: "string list \<Rightarrow> string" where
  \<comment> \<open>\<open>repr\<close> of a list of strings, as an f-string formats it\<close>
  "py_repr_list xs = ''['' @ join '', '' (map py_repr xs) @ '']''"

section \<open>The suffixes of a path\<close>

text \<open>
  \<open>Path(fname).suffixes\<close> of the standard library, for a POSIX path: the name is the
  last component of the path that is neither empty nor \<open>.\<close> (the empty string when there
  is none); a name that ends in a dot has no suffixes; otherwise the leading dots are
  stripped, the rest is split at the dots and every piece after the first is a suffix,
  written with its dot.
\<close>

definition path_name :: "string \<Rightarrow> string" where
  "path_name fname =
     (let parts = filter (\<lambda>p. p \<noteq> [] \<and> p \<noteq> ''.'') (split_on (CHR ''/'') fname)
      in if parts = [] then [] else last parts)"

definition path_suffixes :: "string \<Rightarrow> string list" where
  "path_suffixes fname =
     (let name = path_name fname
      in if endswith_dot name then []
         else map (\<lambda>suffix. CHR ''.'' # suffix) (tl (split_on (CHR ''.'') (lstrip_dots name))))"

section \<open>Values, errors and raw objects\<close>

datatype pyval = PyNone | PyStr string | PyInt int | PyObj string

text \<open>\<open>PyObj s\<close> is any other object, known by the text \<open>s\<close> that \<open>str()\<close> gives for it.\<close>

fun py_str :: "pyval \<Rightarrow> string" where
  "py_str PyNone = ''None''"
| "py_str (PyStr s) = s"
| "py_str (PyInt i) = show_int i"
| "py_str (PyObj s) = s"

type_synonym kwargs = "(string \<times> pyval) list"

datatype error = ValueError string | TypeError string | ExternalError string

text \<open>
  A dict is an association list with distinct keys, in insertion order.
  \<open>d.update(e)\<close> and \<open>{**d, **e}\<close> insert the items of \<open>e\<close> into \<open>d\<close> one after the
  other: an existing key keeps its place and takes the new value.
\<close>

definition dict_update :: "('k \<times> 'v) list \<Rightarrow> ('k \<times> 'v) list \<Rightarrow> ('k \<times> 'v) list" where
  "dict_update d e = fold (\<lambda>(k, v). AList.update k v) e d"

definition dict_keys :: "('k \<times> 'v) list \<Rightarrow> 'k list" where
  "dict_keys d = map fst d"

datatype ndarray = NDArray (shape: "nat list") (elems: "pyval list")

definition ndim :: "ndarray \<Rightarrow> nat" where
  "ndim a = length (shape a)"

record info =
  nchan :: nat
  sfreq :: pyval

record raw =
  raw_info :: info
  raw_data :: ndarray
  filenames :: "string list"

definition create_info :: "nat \<Rightarrow> pyval \<Rightarrow> info" where
  \<comment> \<open>Modelled from the spec: \<open>mne.create_info(n, sfreq)\<close> of the external library, the
      measurement info of \<open>n\<close> channels at sampling rate \<open>sfreq\<close>.\<close>
  "create_info n sf = \<lparr>nchan = n, sfreq = sf\<rparr>"

definition RawArray :: "ndarray \<Rightarrow> info \<Rightarrow> raw" where
  \<comment> \<open>Modelled from the spec: \<open>mne.io.RawArray(data, info)\<close> of the external library, the
      raw object that carries the data and its info, with no file behind it yet.\<close>
  "RawArray npy i = \<lparr>raw_info = i, raw_data = npy, filenames = []\<rparr>"

text \<open>
  The world outside the module: what \<open>np.load\<close> finds in a file, and what the external
  readers (those of \<open>mne.io\<close>, and \<open>read_raw_xdf\<close>) do, each known by its name.
\<close>

record env =
  np_load :: "string \<Rightarrow> error + ndarray"
  external :: "string \<Rightarrow> string \<Rightarrow> pyval list \<Rightarrow> kwargs \<Rightarrow> error + raw"

section \<open>The readers\<close>

definition read_unsupported :: "string \<Rightarrow> kwargs \<Rightarrow> error + raw" where
  \<comment> \<open>\<open>_read_unsupported(fname, **kwargs)\<close>\<close>
  "read_unsupported fname kw =
     (let ext = concat (path_suffixes fname);
          msg = ''Unsupported file type ('' @ ext @ '').'';
          suggest = (case map_of kw ''suggest'' of None \<Rightarrow> PyNone | Some v \<Rightarrow> v)
      in if suggest \<noteq> PyNone
         then Inl (ValueError (msg @ '' Try reading a '' @ py_str suggest @ '' file instead.''))
         else Inl (ValueError msg))"

definition read_numpy :: "env \<Rightarrow> string \<Rightarrow> pyval \<Rightarrow> pyval list \<Rightarrow> kwargs \<Rightarrow> error + raw" where
  \<comment> \<open>\<open>read_numpy(fname, sfreq, *args, **kwargs)\<close>\<close>
  "read_numpy e fname sf args kw =
     (case np_load e fname of
        Inl err \<Rightarrow> Inl err
      | Inr npy \<Rightarrow>
          if ndim npy \<noteq> 2
          then Inl (ValueError (''Array must have two dimensions (got '' @ show_nat (ndim npy) @ '').''))
          else let i = create_info (shape npy ! 0) sf;
                   r = RawArray npy i
               in Inr (r\<lparr>filenames := [fname]\<rparr>))"

text \<open>
  Calling a function binds the arguments to its parameters first, and the call fails with
  a TypeError when they do not fit: a parameter given twice, a positional argument too
  many, a required parameter left out.
\<close>

definition multiple_values :: "string \<Rightarrow> string \<Rightarrow> error" where
  "multiple_values f p =
     TypeError (f @ ''() got multiple values for argument '' @ [CHR 0x27] @ p @ [CHR 0x27])"

definition call_read_unsupported :: "string \<Rightarrow> pyval list \<Rightarrow> kwargs \<Rightarrow> error + raw" where
  \<comment> \<open>the call \<open>_read_unsupported(fname, *args, **kw)\<close>: one positional parameter and \<open>**kwargs\<close>\<close>
  "call_read_unsupported fname args kw =
     (if ''fname'' \<in> set (dict_keys kw) then Inl (multiple_values ''_read_unsupported'' ''fname'')
      else if args \<noteq> []
      then Inl (TypeError (''_read_unsupported() takes 1 positional argument but ''
                 @ show_nat (Suc (length args)) @ '' were given''))
      else read_unsupported fname kw)"

definition call_read_numpy :: "env \<Rightarrow> string \<Rightarrow> pyval list \<Rightarrow> kwargs \<Rightarrow> error + raw" where
  \<comment> \<open>the call \<open>read_numpy(fname, *args, **kw)\<close>: \<open>sfreq\<close> is the second parameter\<close>
  "call_read_numpy e fname args kw =
     (if ''fname'' \<in> set (dict_keys kw) then Inl (multiple_values ''read_numpy'' ''fname'')
      else case args of
        sf # rest \<Rightarrow>
          if ''sfreq'' \<in> set (dict_keys kw) then Inl (multiple_values ''read_numpy'' ''sfreq'')
          else read_numpy e fname sf rest kw
      | [] \<Rightarrow>
          (case map_of kw ''sfreq'' of
             Some sf \<Rightarrow> read_numpy e fname sf [] (AList.delete ''sfreq'' kw)
           | None \<Rightarrow> Inl (TypeError (''read_numpy() missing 1 required positional argument: ''
                          @ [CHR 0x27] @ ''sfreq'' @ [CHR 0x27]))))"

datatype handler =
    External string
  | ReadNumpy
  | ReadUnsupported
  | Partial handler kwargs

fun call_handler :: "env \<Rightarrow> handler \<Rightarrow> string \<Rightarrow> pyval list \<Rightarrow> kwargs \<Rightarrow> error + raw" where
  \<comment> \<open>\<open>h(fname, *args, **kw)\<close>; \<open>partial(f, **pkw)\<close> calls \<open>f\<close> with \<open>{**pkw, **kw}\<close>\<close>
  "call_handler e (External name) fname args kw = external e name fname args kw"
| "call_handler e ReadNumpy fname args kw = call_read_numpy e fname args kw"
| "call_handler e ReadUnsupported fname args kw = call_read_unsupported fname args kw"
| "call_handler e (Partial h pkw) fname args kw = call_handler e h fname args (dict_update pkw kw)"

section \<open>The registries\<close>

type_synonym registry = "(string \<times> handler) list"

definition supported_base :: registry where
  "supported_base =
     [(''.edf'', External ''mne.io.read_raw_edf''),
      (''.bdf'', External ''mne.io.read_raw_bdf''),
      (''.gdf'', External ''mne.io.read_raw_gdf''),
      (''.vhdr'', External ''mne.io.read_raw_brainvision''),
      (''.fif'', External ''mne.io.read_raw_fif''),
      (''.fif.gz'', External ''mne.io.read_raw_fif''),
      (''.set'', External ''mne.io.read_raw_eeglab''),
      (''.cnt'', External ''mne.io.read_raw_cnt''),
      (''.mff'', External ''mne.io.read_raw_egi''),
      (''.nxe'', External ''mne.io.read_raw_eximia''),
      (''.hdr'', External ''mne.io.read_raw_nirx''),
      (''.npy'', ReadNumpy)]"

definition supported :: "bool \<Rightarrow> registry" where
  \<comment> \<open>the dict \<open>supported\<close> once the module is loaded; the flag is \<open>have["pyxdf"]\<close>\<close>
  "supported have_pyxdf =
     (if have_pyxdf
      then dict_update supported_base
             [(''.xdf'', External ''read_raw_xdf''),
              (''.xdfz'', External ''read_raw_xdf''),
              (''.xdf.gz'', External ''read_raw_xdf'')]
      else supported_base)"

definition suggested :: registry where
  "suggested =
     [(''.vmrk'', Partial ReadUnsupported [(''suggest'', PyStr ''.vhdr'')]),
      (''.eeg'', Partial ReadUnsupported [(''suggest'', PyStr ''.vhdr'')])]"

definition readers :: "registry \<Rightarrow> registry \<Rightarrow> registry" where
  \<comment> \<open>\<open>readers = {**supported, **suggested}\<close>\<close>
  "readers supp sugg = dict_update supp sugg"

section \<open>read_raw\<close>

definition unknown_file_type :: "string list \<Rightarrow> error" where
  \<comment> \<open>\<open>ValueError(f"Unknown file type {suffixes}.")\<close>\<close>
  "unknown_file_type suffixes = ValueError (''Unknown file type '' @ py_repr_list suffixes @ ''.'')"

definition candidate :: "string list \<Rightarrow> int \<Rightarrow> string" where
  \<comment> \<open>\<open>"".join(suffixes[i:]).lower()\<close>\<close>
  "candidate suffixes i = py_lower (concat (py_slice_from suffixes i))"

fun read_raw_loop ::
  "env \<Rightarrow> registry \<Rightarrow> string list \<Rightarrow> int list \<Rightarrow> string \<Rightarrow> pyval list \<Rightarrow> kwargs \<Rightarrow> error + raw" where
  \<comment> \<open>the \<open>for\<close> loop of \<open>read_raw\<close> over the indices still to try, and the \<open>raise\<close> after it\<close>
  "read_raw_loop e rd suffixes [] fname args kw = Inl (unknown_file_type suffixes)"
| "read_raw_loop e rd suffixes (i # is) fname args kw =
     (let ext = candidate suffixes i
      in case map_of rd ext of
           Some h \<Rightarrow> call_handler e h fname args kw
         | None \<Rightarrow> read_raw_loop e rd suffixes is fname args kw)"

definition read_raw ::
  "registry \<Rightarrow> registry \<Rightarrow> env \<Rightarrow> string \<Rightarrow> pyval list \<Rightarrow> kwargs \<Rightarrow> error + raw" where
  \<comment> \<open>\<open>read_raw(fname, *args, **kwargs)\<close> in a module whose dicts are \<open>supp\<close> and \<open>sugg\<close>\<close>
  "read_raw supp sugg e fname args kw =
     (case py_max (map count_dots (dict_keys supp)) of
        Inl msg \<Rightarrow> Inl (ValueError msg)
      | Inr maxsuffixes \<Rightarrow>
          let suffixes = path_suffixes fname
          in read_raw_loop e (readers supp sugg) suffixes (py_range (- int maxsuffixes) 0)
               fname args kw)"

section \<open>Resolution and dispatch\<close>

text \<open>
  The loop of \<open>read_raw\<close> does two things at once: it finds the first candidate that is a
  key of \<open>readers\<close>, and it calls the reader found there. \<open>first_match\<close> is that loop with
  the call left out: it gives the key at which the loop returns together with the
  reader stored under it, or \<open>None\<close> when the loop runs to its end. \<open>resolve\<close> is
  \<open>first_match\<close> over the indices that \<open>read_raw\<close> tries, and \<open>dispatch\<close> is what
  \<open>read_raw\<close> does with the outcome.
\<close>

fun first_match :: "registry \<Rightarrow> string list \<Rightarrow> int list \<Rightarrow> (string \<times> handler) option" where
  "first_match rd suffixes [] = None"
| "first_match rd suffixes (i # is) =
     (let ext = candidate suffixes i
      in case map_of rd ext of
           Some h \<Rightarrow> Some (ext, h)
         | None \<Rightarrow> first_match rd suffixes is)"

definition resolve :: "registry \<Rightarrow> registry \<Rightarrow> string \<Rightarrow> string + (string \<times> handler) option" where
  "resolve supp sugg fname =
     (case py_max (map count_dots (dict_keys supp)) of
        Inl msg \<Rightarrow> Inl msg
      | Inr maxsuffixes \<Rightarrow>
          Inr (first_match (readers supp sugg) (path_suffixes fname)
                 (py_range (- int maxsuffixes) 0)))"

definition dispatch ::
  "env \<Rightarrow> string + (string \<times> handler) option \<Rightarrow> string \<Rightarrow> pyval list \<Rightarrow> kwargs \<Rightarrow> error + raw" where
  "dispatch e r fname args kw =
     (case r of
        Inl msg \<Rightarrow> Inl (ValueError msg)
      | Inr None \<Rightarrow> Inl (unknown_file_type (path_suffixes fname))
      | Inr (Some (ext, h)) \<Rightarrow> call_handler e h fname args kw)"

definition tail_candidate :: "string \<Rightarrow> nat \<Rightarrow> string" where
  \<comment> \<open>the candidate that \<open>read_raw\<close> forms at index \<open>-k\<close>: the last \<open>k\<close> suffixes of the
      file name (all of them when there are fewer), joined and lower-cased\<close>
  "tail_candidate fname k = candidate (path_suffixes fname) (- int k)"

section \<open>An environment and registries for examples\<close>

definition demo_raw :: "string \<Rightarrow> string \<Rightarrow> raw" where
  "demo_raw name fname =
     \<lparr>raw_info = \<lparr>nchan = 1, sfreq = PyInt 100\<rparr>,
      raw_data = NDArray [1, 1] [PyStr name],
      filenames = [fname]\<rparr>"

definition demo_env :: env where
  \<comment> \<open>\<open>a.npy\<close> holds an array of 5 rows and 1000 columns, \<open>b.npy\<close> an array of one
      dimension; every external reader returns a raw object that carries its name\<close>
  "demo_env =
     \<lparr>np_load = (\<lambda>f. if f = ''a.npy'' then Inr (NDArray [5, 1000] [])
                     else if f = ''b.npy'' then Inr (NDArray [7] [])
                     else Inl (ExternalError ''FileNotFoundError'')),
      external = (\<lambda>name f args kw. Inr (demo_raw name f))\<rparr>"

definition suggest_vhdr :: handler where
  \<comment> \<open>\<open>partial(_read_unsupported, suggest=".vhdr")\<close>\<close>
  "suggest_vhdr = Partial ReadUnsupported [(''suggest'', PyStr ''.vhdr'')]"

definition gz_supported :: registry where
  \<comment> \<open>a registry with a compound suffix and its shorter tail\<close>
  "gz_supported = [(''.gz'', External ''read_gz''), (''.fif.gz'', External ''mne.io.read_raw_fif'')]"



section \<open>Lemmas about strings and paths\<close>

lemma of_char_lower:
  "(of_char (py_lower_char c) :: nat) =
     (let n = of_char c
      in if (65 \<le> n \<and> n \<le> 90) \<or> (192 \<le> n \<and> n \<le> 222 \<and> n \<noteq> 215) then n + 32 else n)"
  by (auto simp: py_lower_char_def Let_def)

lemma py_lower_char_dot: "py_lower_char c = CHR ''.'' \<longleftrightarrow> c = CHR ''.''"
proof -
  have "py_lower_char c = CHR ''.'' \<longleftrightarrow> (of_char (py_lower_char c) :: nat) = of_char (CHR ''.'')"
    by (simp only: of_char_eq_iff)
  also have "\<dots> \<longleftrightarrow> (of_char c :: nat) = of_char (CHR ''.'')"
    by (auto simp: of_char_lower Let_def)
  also have "\<dots> \<longleftrightarrow> c = CHR ''.''"
    by (simp only: of_char_eq_iff)
  finally show ?thesis .
qed

lemma py_lower_char_slash: "py_lower_char c = CHR ''/'' \<longleftrightarrow> c = CHR ''/''"
proof -
  have "py_lower_char c = CHR ''/'' \<longleftrightarrow> (of_char (py_lower_char c) :: nat) = of_char (CHR ''/'')"
    by (simp only: of_char_eq_iff)
  also have "\<dots> \<longleftrightarrow> (of_char c :: nat) = of_char (CHR ''/'')"
    by (auto simp: of_char_lower Let_def)
  also have "\<dots> \<longleftrightarrow> c = CHR ''/''"
    by (simp only: of_char_eq_iff)
  finally show ?thesis .
qed

lemma py_lower_append: "py_lower (s @ t) = py_lower s @ py_lower t"
  by (simp add: py_lower_def)

lemma py_lower_concat: "py_lower (concat xs) = concat (map py_lower xs)"
  by (induction xs) (simp_all add: py_lower_def)

lemma py_lower_eq_Nil: "py_lower s = [] \<longleftrightarrow> s = []"
  by (simp add: py_lower_def)

lemma py_lower_eq_dot: "py_lower s = ''.'' \<longleftrightarrow> s = ''.''"
  by (cases s) (auto simp: py_lower_def py_lower_char_dot)

lemma count_dots_lower: "count_dots (py_lower s) = count_dots s"
  by (induction s) (auto simp: count_dots_def py_lower_def py_lower_char_dot)

lemma count_dots_append: "count_dots (s @ t) = count_dots s + count_dots t"
  by (induction s) (auto simp: count_dots_def)

lemma count_dots_concat:
  "(\<And>x. x \<in> set xs \<Longrightarrow> count_dots x = 1) \<Longrightarrow> count_dots (concat xs) = length xs"
proof (induction xs)
  case Nil
  show ?case by (simp add: count_dots_def)
next
  case (Cons x xs)
  then show ?case by (simp add: count_dots_append)
qed

lemma split_on_not_Nil: "split_on sep s \<noteq> []"
  by (induction s) auto

lemma split_on_map:
  assumes "\<And>c. f c = sep \<longleftrightarrow> c = sep"
  shows "split_on sep (map f s) = map (map f) (split_on sep s)"
proof (induction s)
  case Nil
  show ?case by simp
next
  case (Cons c cs)
  then show ?case
    using assms split_on_not_Nil [of sep cs]
    by (cases "split_on sep cs") (auto simp: map_tl)
qed

lemma split_on_no_sep: "p \<in> set (split_on sep s) \<Longrightarrow> sep \<notin> set p"
proof (induction s arbitrary: p)
  case Nil
  then show ?case by simp
next
  case (Cons c cs)
  show ?case
  proof (cases "split_on sep cs")
    case Nil
    then show ?thesis using split_on_not_Nil by blast
  next
    case (Cons q qs)
    then show ?thesis using Cons.IH Cons.prems by (auto split: if_splits)
  qed
qed

lemma count_dots_suffix:
  assumes "x \<in> set (path_suffixes fname)"
  shows "count_dots x = 1"
proof -
  obtain p where x: "x = CHR ''.'' # p"
    and p: "p \<in> set (tl (split_on (CHR ''.'') (lstrip_dots (path_name fname))))"
    using assms by (auto simp: path_suffixes_def Let_def split: if_splits)
  from p have "p \<in> set (split_on (CHR ''.'') (lstrip_dots (path_name fname)))"
    by (rule list.set_sel(2) [OF split_on_not_Nil])
  then have "CHR ''.'' \<notin> set p"
    by (rule split_on_no_sep)
  then have "count_list p (CHR ''.'') = 0"
    by (simp add: count_list_0_iff)
  with x show ?thesis by (simp add: count_dots_def)
qed

lemma py_slice_from_neg: "0 < k \<Longrightarrow> py_slice_from xs (- int k) = drop (length xs - k) xs"
  by (auto simp: py_slice_from_def Let_def max_def nat_diff_distrib' intro: arg_cong [where f = "\<lambda>n. drop n xs"])

lemma tail_candidate_eq:
  "0 < k \<Longrightarrow> tail_candidate fname k
     = py_lower (concat (drop (length (path_suffixes fname) - k) (path_suffixes fname)))"
  by (simp add: tail_candidate_def candidate_def py_slice_from_neg)

lemma count_dots_tail_candidate:
  assumes "0 < k"
  shows "count_dots (tail_candidate fname k) = min k (length (path_suffixes fname))"
proof -
  have "count_dots (concat (drop (length (path_suffixes fname) - k) (path_suffixes fname)))
          = length (drop (length (path_suffixes fname) - k) (path_suffixes fname))"
    by (rule count_dots_concat) (meson count_dots_suffix in_set_dropD)
  then show ?thesis
    using assms by (auto simp: tail_candidate_eq count_dots_lower)
qed

lemma py_lower_path_name: "path_name (py_lower fname) = py_lower (path_name fname)"
proof -
  have split: "split_on (CHR ''/'') (py_lower fname) = map py_lower (split_on (CHR ''/'') fname)"
    unfolding py_lower_def by (rule split_on_map) (rule py_lower_char_slash)
  have filt: "filter (\<lambda>p. p \<noteq> [] \<and> p \<noteq> ''.'') (map py_lower xs)
                = map py_lower (filter (\<lambda>p. p \<noteq> [] \<and> p \<noteq> ''.'') xs)" for xs
    by (induction xs) (auto simp: py_lower_eq_Nil py_lower_eq_dot)
  show ?thesis
    by (simp add: path_name_def Let_def split filt last_map py_lower_eq_Nil) (simp add: py_lower_def)
qed

lemma lstrip_dots_lower: "lstrip_dots (py_lower s) = py_lower (lstrip_dots s)"
  by (induction s) (auto simp: lstrip_dots_def py_lower_def py_lower_char_dot)

lemma endswith_dot_lower: "endswith_dot (py_lower s) = endswith_dot s"
  by (cases s rule: rev_cases) (auto simp: endswith_dot_def py_lower_def py_lower_char_dot)

lemma path_suffixes_lower: "path_suffixes (py_lower fname) = map py_lower (path_suffixes fname)"
proof -
  have split: "split_on (CHR ''.'') (py_lower s) = map py_lower (split_on (CHR ''.'') s)" for s
    unfolding py_lower_def by (rule split_on_map) (rule py_lower_char_dot)
  have dot: "py_lower (CHR ''.'' # p) = CHR ''.'' # py_lower p" for p
    by (simp add: py_lower_def py_lower_char_dot [THEN iffD2])
  show ?thesis
    by (simp add: path_suffixes_def Let_def py_lower_path_name lstrip_dots_lower
        endswith_dot_lower split map_tl dot comp_def)
qed

section \<open>Lemmas about dicts\<close>

lemma map_of_dict_update:
  "distinct (map fst e) \<Longrightarrow>
     map_of (dict_update d e) k = (case map_of e k of Some v \<Rightarrow> Some v | None \<Rightarrow> map_of d k)"
proof (induction e arbitrary: d)
  case Nil
  show ?case by (simp add: dict_update_def)
next
  case (Cons p e)
  obtain k' v' where p: "p = (k', v')" by (cases p)
  have step: "dict_update d (p # e) = dict_update (AList.update k' v' d) e"
    by (simp add: dict_update_def p)
  from Cons.prems have dist: "distinct (map fst e)" and fresh: "k' \<notin> fst ` set e"
    by (simp_all add: p)
  from fresh have none: "map_of e k' = None"
    by (simp add: map_of_eq_None_iff)
  show ?case
    unfolding step Cons.IH [OF dist]
    using none by (auto simp: p update_conv' split: option.splits)
qed

lemma map_of_readers:
  "distinct (dict_keys sugg) \<Longrightarrow>
     map_of (readers supp sugg) k
       = (case map_of sugg k of Some h \<Rightarrow> Some h | None \<Rightarrow> map_of supp k)"
  by (simp add: readers_def dict_keys_def map_of_dict_update)

lemma distinct_suggested: "distinct (dict_keys suggested)"
  by (simp add: suggested_def dict_keys_def)

lemma supported_eq:
  "supported b = supported_base @
     (if b then [(''.xdf'', External ''read_raw_xdf''), (''.xdfz'', External ''read_raw_xdf''),
                 (''.xdf.gz'', External ''read_raw_xdf'')] else [])"
  by (simp add: supported_def supported_base_def dict_update_def)

lemma keys_supported:
  "dict_keys (supported b) =
     [''.edf'', ''.bdf'', ''.gdf'', ''.vhdr'', ''.fif'', ''.fif.gz'', ''.set'', ''.cnt'', ''.mff'',
      ''.nxe'', ''.hdr'', ''.npy''] @ (if b then [''.xdf'', ''.xdfz'', ''.xdf.gz''] else [])"
  by (simp add: supported_eq supported_base_def dict_keys_def)

lemma keys_suggested: "dict_keys suggested = [''.vmrk'', ''.eeg'']"
  by (simp add: suggested_def dict_keys_def)

lemma map_of_suggested:
  "k \<in> set (dict_keys suggested) \<Longrightarrow> map_of suggested k = Some suggest_vhdr"
  by (auto simp: suggested_def dict_keys_def suggest_vhdr_def)

lemma supported_not_suggested:
  "k \<in> set (dict_keys (supported b)) \<Longrightarrow> k \<notin> set (dict_keys suggested)"
  unfolding keys_supported keys_suggested by (cases b) auto

lemma py_max_supported: "py_max (map count_dots (dict_keys (supported b))) = Inr 2"
  by (cases b) (simp_all add: supported_eq supported_base_def dict_keys_def count_dots_def)

section \<open>Lemmas about the loop\<close>

lemma read_raw_loop_first_match:
  "read_raw_loop e rd suffixes is fname args kw =
     (case first_match rd suffixes is of
        None \<Rightarrow> Inl (unknown_file_type suffixes)
      | Some (ext, h) \<Rightarrow> call_handler e h fname args kw)"
  by (induction "is") (auto simp: Let_def split: option.splits)

lemma read_raw_dispatch:
  "read_raw supp sugg e fname args kw = dispatch e (resolve supp sugg fname) fname args kw"
  by (auto simp: read_raw_def resolve_def dispatch_def Let_def read_raw_loop_first_match
      split: sum.splits option.splits)

lemma first_match_None:
  "first_match rd suffixes is = None \<longleftrightarrow> (\<forall>i\<in>set is. map_of rd (candidate suffixes i) = None)"
  by (induction "is") (auto simp: Let_def split: option.splits)

lemma first_match_SomeD:
  "first_match rd suffixes is = Some (ext, h) \<Longrightarrow>
     \<exists>i\<in>set is. ext = candidate suffixes i \<and> map_of rd ext = Some h"
  by (induction "is") (auto simp: Let_def split: option.splits)

lemma first_match_append:
  "\<forall>i\<in>set pre. map_of rd (candidate suffixes i) = None \<Longrightarrow>
     first_match rd suffixes (pre @ is) = first_match rd suffixes is"
  by (induction pre) (auto simp: Let_def)

lemma py_range_neg_set: "set (py_range (- int m) 0) = {i. \<exists>k. 0 < k \<and> k \<le> m \<and> i = - int k}"
proof -
  have "set (py_range (- int m) 0) = {i. - int m \<le> i \<and> i \<le> - 1}"
    by (auto simp: py_range_def)
  also have "\<dots> = {i. \<exists>k. 0 < k \<and> k \<le> m \<and> i = - int k}"
  proof (intro set_eqI iffI; clarify)
    fix i :: int
    assume "- int m \<le> i" "i \<le> - 1"
    then have "0 < nat (- i) \<and> nat (- i) \<le> m \<and> i = - int (nat (- i))" by auto
    then show "\<exists>k. 0 < k \<and> k \<le> m \<and> i = - int k" by blast
  next
    fix k :: nat
    assume "0 < k" "k \<le> m"
    then show "- int m \<le> - int k \<and> - int k \<le> - 1" by auto
  qed
  finally show ?thesis .
qed

lemma py_range_neg_split:
  assumes "0 < k" "k \<le> m"
  shows "py_range (- int m) 0 = [- int m..- int k - 1] @ (- int k) # [- int k + 1..- 1]"
proof -
  from assms have "- int m \<le> - int k" "- int k \<le> - 1" by simp_all
  then have "[- int m..- 1] = [- int m..- int k - 1] @ (- int k) # [- int k + 1..- 1]"
    by (rule upto_split3)
  then show ?thesis by (simp add: py_range_def)
qed

lemma first_match_longest:
  assumes k: "0 < k" "k \<le> m"
    and hit: "map_of rd (candidate suffixes (- int k)) = Some h"
    and miss: "\<And>j. k < j \<Longrightarrow> j \<le> m \<Longrightarrow> map_of rd (candidate suffixes (- int j)) = None"
  shows "first_match rd suffixes (py_range (- int m) 0) = Some (candidate suffixes (- int k), h)"
proof -
  have pre: "\<forall>i\<in>set [- int m..- int k - 1]. map_of rd (candidate suffixes i) = None"
  proof
    fix i assume "i \<in> set [- int m..- int k - 1]"
    then have i: "- int m \<le> i" "i < - int k" by auto
    then have "k < nat (- i)" "nat (- i) \<le> m" "i = - int (nat (- i))" by auto
    with miss [of "nat (- i)"] show "map_of rd (candidate suffixes i) = None" by simp
  qed
  show ?thesis
    unfolding py_range_neg_split [OF k] first_match_append [OF pre]
    using hit by (simp add: Let_def)
qed

lemma first_match_range_None:
  "first_match rd suffixes (py_range (- int m) 0) = None
     \<longleftrightarrow> (\<forall>k. 0 < k \<and> k \<le> m \<longrightarrow> map_of rd (candidate suffixes (- int k)) = None)"
  unfolding first_match_None py_range_neg_set by auto

lemma first_match_range_SomeD:
  assumes "first_match rd suffixes (py_range (- int m) 0) = Some (ext, h)"
  shows "\<exists>k. 0 < k \<and> k \<le> m \<and> ext = candidate suffixes (- int k) \<and> map_of rd ext = Some h"
  using first_match_SomeD [OF assms] unfolding py_range_neg_set by auto

lemma py_lower_char_idem: "py_lower_char (py_lower_char c) = py_lower_char c"
proof -
  have "(of_char (py_lower_char (py_lower_char c)) :: nat) = of_char (py_lower_char c)"
    by (auto simp: of_char_lower [of "py_lower_char c"] of_char_lower [of c] Let_def)
  then show ?thesis by (simp only: of_char_eq_iff)
qed

lemma py_lower_idem: "py_lower (py_lower s) = py_lower s"
  by (simp add: py_lower_def py_lower_char_idem)

lemma py_slice_from_map: "py_slice_from (map f xs) i = map f (py_slice_from xs i)"
  by (simp add: py_slice_from_def Let_def drop_map)

lemma candidate_lower: "candidate suffixes i = concat (py_slice_from (map py_lower suffixes) i)"
  by (simp add: candidate_def py_lower_concat py_slice_from_map)

lemma first_match_lower:
  "map py_lower suffixes = map py_lower suffixes' \<Longrightarrow>
     first_match rd suffixes is = first_match rd suffixes' is"
  by (induction "is") (auto simp: candidate_lower Let_def split: option.splits)


lemma resolve_SomeD:
  assumes "resolve supp sugg fname = Inr (Some (key, h))"
  shows "\<exists>m k. py_max (map count_dots (dict_keys supp)) = Inr m \<and> 0 < k \<and> k \<le> m
           \<and> key = tail_candidate fname k \<and> map_of (readers supp sugg) key = Some h"
proof -
  from assms obtain m where m: "py_max (map count_dots (dict_keys supp)) = Inr m"
    and fm: "first_match (readers supp sugg) (path_suffixes fname) (py_range (- int m) 0)
               = Some (key, h)"
    by (auto simp: resolve_def split: sum.splits)
  from first_match_range_SomeD [OF fm] m show ?thesis
    by (auto simp: tail_candidate_def)
qed

lemma registry_keys_lower:
  assumes "key \<in> set (dict_keys (supported b)) \<union> set (dict_keys suggested)"
  shows "py_lower key = key"
proof -
  have "\<forall>k \<in> set (dict_keys (supported True) @ dict_keys suggested). py_lower k = k"
    by code_simp
  moreover have "set (dict_keys (supported b)) \<subseteq> set (dict_keys (supported True))"
    by (cases b) (auto simp: keys_supported)
  ultimately show ?thesis using assms by auto
qed

section \<open>Lemmas about the unsupported reader\<close>

lemma keys_dict_update:
  "set (dict_keys (dict_update d e)) = set (dict_keys d) \<union> set (dict_keys e)"
proof (induction e arbitrary: d)
  case Nil
  show ?case by (simp add: dict_update_def dict_keys_def)
next
  case (Cons p e)
  obtain k v where p: "p = (k, v)" by (cases p)
  have step: "dict_update d (p # e) = dict_update (AList.update k v d) e"
    by (simp add: dict_update_def p)
  have "set (dict_keys (AList.update k v d)) = insert k (set (dict_keys d))"
    by (simp add: dict_keys_def dom_update)
  then show ?case
    unfolding step Cons.IH by (auto simp: p dict_keys_def)
qed

lemma map_of_dict_update_other:
  "k \<notin> set (dict_keys e) \<Longrightarrow> map_of (dict_update d e) k = map_of d k"
proof (induction e arbitrary: d)
  case Nil
  show ?case by (simp add: dict_update_def)
next
  case (Cons p e)
  obtain k' v' where p: "p = (k', v')" by (cases p)
  have step: "dict_update d (p # e) = dict_update (AList.update k' v' d) e"
    by (simp add: dict_update_def p)
  from Cons.prems have "k \<noteq> k'" and rest: "k \<notin> set (dict_keys e)"
    by (simp_all add: p dict_keys_def)
  then show ?case
    unfolding step Cons.IH [OF rest] by (simp add: update_conv')
qed

lemma call_read_unsupported_named:
  assumes "''fname'' \<notin> set (dict_keys kw)"
  shows "call_read_unsupported fname [] kw
           = Inl (ValueError (''Unsupported file type ('' @ concat (path_suffixes fname) @ '').''
               @ (case map_of kw ''suggest'' of
                    None \<Rightarrow> []
                  | Some v \<Rightarrow> if v = PyNone then []
                              else '' Try reading a '' @ py_str v @ '' file instead.'')))"
  using assms
  by (simp add: call_read_unsupported_def read_unsupported_def Let_def split: option.splits)

lemma resolve_suggested_handler:
  assumes "resolve (supported b) suggested fname = Inr (Some (key, h))"
    and "key \<in> set (dict_keys suggested)"
  shows "h = suggest_vhdr"
proof -
  from resolve_SomeD [OF assms(1)]
  have "map_of (readers (supported b) suggested) key = Some h" by blast
  with assms(2) show ?thesis
    by (simp add: map_of_readers distinct_suggested map_of_suggested)
qed

section \<open>The flat-array loader\<close>

text \<open>
  C7: when the array that \<open>read_numpy\<close> loads does not have exactly two dimensions, the
  call fails with the ValueError whose message gives the number of dimensions found, in
  decimal; when the array has two dimensions the call does not fail with that error.
\<close>

theorem read_numpy_shape_error:
  assumes "np_load e fname = Inr npy"
  shows "(ndim npy \<noteq> 2 \<longrightarrow>
            read_numpy e fname sf args kw
              = Inl (ValueError (''Array must have two dimensions (got '' @ show_nat (ndim npy) @ '').'')))
       \<and> (ndim npy = 2 \<longrightarrow> (\<forall>msg. read_numpy e fname sf args kw \<noteq> Inl (ValueError msg)))"
  using assms by (simp add: read_numpy_def Let_def)

theorem read_numpy_shape_error_witness:
  "np_load demo_env ''b.npy'' = Inr (NDArray [7] [])
   \<and> read_numpy demo_env ''b.npy'' (PyInt 250) [] []
       = Inl (ValueError ''Array must have two dimensions (got 1).'')
   \<and> np_load demo_env ''a.npy'' = Inr (NDArray [5, 1000] [])
   \<and> read_numpy demo_env ''a.npy'' (PyInt 250) [] []
       \<noteq> Inl (ValueError ''Array must have two dimensions (got 2).'')"
proof -
  have b: "np_load demo_env ''b.npy'' = Inr (NDArray [7] [])"
    by (simp add: demo_env_def)
  have a: "np_load demo_env ''a.npy'' = Inr (NDArray [5, 1000] [])"
    by (simp add: demo_env_def)
  have one: "show_nat (ndim (NDArray [7] [])) = ''1''"
    by code_simp
  from read_numpy_shape_error [OF b, of "PyInt 250" "[]" "[]"] one
  have "read_numpy demo_env ''b.npy'' (PyInt 250) [] []
          = Inl (ValueError ''Array must have two dimensions (got 1).'')"
    by (simp add: ndim_def)
  moreover from read_numpy_shape_error [OF a, of "PyInt 250" "[]" "[]"]
  have "read_numpy demo_env ''a.npy'' (PyInt 250) [] []
          \<noteq> Inl (ValueError ''Array must have two dimensions (got 2).'')"
    by (simp add: ndim_def)
  ultimately show ?thesis using a b by simp
qed

text \<open>
  C8: for an array of two dimensions and any sampling rate, \<open>read_numpy\<close> returns a raw
  object with as many channels as the array has rows, with the sampling rate that was
  passed, and with the file name as its only file.
\<close>

theorem read_numpy_returns_raw:
  assumes "np_load e fname = Inr npy" and "ndim npy = 2"
  shows "\<exists>r. read_numpy e fname sf args kw = Inr r
             \<and> nchan (raw_info r) = shape npy ! 0
             \<and> sfreq (raw_info r) = sf
             \<and> filenames r = [fname]
             \<and> raw_data r = npy"
  using assms by (simp add: read_numpy_def Let_def create_info_def RawArray_def)

theorem read_numpy_returns_raw_witness:
  "np_load demo_env ''a.npy'' = Inr (NDArray [5, 1000] [])
   \<and> ndim (NDArray [5, 1000] []) = 2
   \<and> (\<exists>r. read_numpy demo_env ''a.npy'' (PyInt 250) [] [] = Inr r
           \<and> nchan (raw_info r) = 5 \<and> sfreq (raw_info r) = PyInt 250
           \<and> filenames r = [''a.npy''])"
proof -
  have a: "np_load demo_env ''a.npy'' = Inr (NDArray [5, 1000] [])"
    by (simp add: demo_env_def)
  have d: "ndim (NDArray [5, 1000] []) = 2"
    by (simp add: ndim_def)
  from read_numpy_returns_raw [OF a d, of "PyInt 250" "[]" "[]"] a d
  show ?thesis by auto
qed

section \<open>Resolution of the suffix\<close>

text \<open>
  C1: \<open>read_raw\<close> tries the candidates from the longest length that a supported suffix
  has down to length 1 and calls the reader of the first one that is registered. So when
  the last \<open>k\<close> suffixes of the file name spell a registered compound suffix, no longer
  tail that is tried is registered, and a shorter tail of \<open>j\<close> components is registered
  too, the file resolves to the compound suffix, which is not the shorter one, and
  \<open>read_raw\<close> is the call of the reader registered for the compound suffix.
\<close>

theorem read_raw_longest_suffix:
  assumes "py_max (map count_dots (dict_keys supp)) = Inr m"
    and "0 < j" and "j < k" and "k \<le> m" and "k \<le> length (path_suffixes fname)"
    and "map_of (readers supp sugg) (tail_candidate fname k) = Some h"
    and "map_of (readers supp sugg) (tail_candidate fname j) = Some h'"
    and "\<forall>i. k < i \<and> i \<le> m \<longrightarrow> map_of (readers supp sugg) (tail_candidate fname i) = None"
  shows "resolve supp sugg fname = Inr (Some (tail_candidate fname k, h))
       \<and> tail_candidate fname k \<noteq> tail_candidate fname j
       \<and> read_raw supp sugg e fname args kw = call_handler e h fname args kw"
proof -
  from assms have k: "0 < k" by simp
  have "first_match (readers supp sugg) (path_suffixes fname) (py_range (- int m) 0)
          = Some (candidate (path_suffixes fname) (- int k), h)"
    using assms(6,8) by (intro first_match_longest [OF k \<open>k \<le> m\<close>]) (simp_all add: tail_candidate_def)
  then have res: "resolve supp sugg fname = Inr (Some (tail_candidate fname k, h))"
    by (simp add: resolve_def assms(1) tail_candidate_def)
  have "count_dots (tail_candidate fname k) = k" "count_dots (tail_candidate fname j) = j"
    using assms(2-5) k by (simp_all add: count_dots_tail_candidate)
  with \<open>j < k\<close> have "tail_candidate fname k \<noteq> tail_candidate fname j"
    by auto
  with res show ?thesis
    by (simp add: read_raw_dispatch dispatch_def)
qed

theorem read_raw_longest_suffix_witness:
  "py_max (map count_dots (dict_keys gz_supported)) = Inr 2
   \<and> map_of (readers gz_supported suggested) (tail_candidate ''data.FIF.gz'' 2)
       = Some (External ''mne.io.read_raw_fif'')
   \<and> map_of (readers gz_supported suggested) (tail_candidate ''data.FIF.gz'' 1)
       = Some (External ''read_gz'')
   \<and> resolve gz_supported suggested ''data.FIF.gz''
       = Inr (Some (''.fif.gz'', External ''mne.io.read_raw_fif''))
   \<and> read_raw gz_supported suggested demo_env ''data.FIF.gz'' [] []
       = Inr (demo_raw ''mne.io.read_raw_fif'' ''data.FIF.gz'')"
proof -
  have m: "py_max (map count_dots (dict_keys gz_supported)) = Inr 2"
    by code_simp
  have len: "2 \<le> length (path_suffixes ''data.FIF.gz'')"
    by code_simp
  have long: "map_of (readers gz_supported suggested) (tail_candidate ''data.FIF.gz'' 2)
                = Some (External ''mne.io.read_raw_fif'')"
    by code_simp
  have short: "map_of (readers gz_supported suggested) (tail_candidate ''data.FIF.gz'' 1)
                 = Some (External ''read_gz'')"
    by code_simp
  have none: "\<forall>i. 2 < i \<and> i \<le> 2
                \<longrightarrow> map_of (readers gz_supported suggested) (tail_candidate ''data.FIF.gz'' i) = None"
    by auto
  have key: "tail_candidate ''data.FIF.gz'' 2 = ''.fif.gz''"
    by code_simp
  have call: "call_handler demo_env (External ''mne.io.read_raw_fif'') ''data.FIF.gz'' [] []
                = Inr (demo_raw ''mne.io.read_raw_fif'' ''data.FIF.gz'')"
    by (simp add: demo_env_def)
  from read_raw_longest_suffix [where j = 1 and e = demo_env and args = "[]" and kw = "[]",
      OF m _ _ _ len long short none] key call
  have "resolve gz_supported suggested ''data.FIF.gz''
          = Inr (Some (''.fif.gz'', External ''mne.io.read_raw_fif''))
        \<and> read_raw gz_supported suggested demo_env ''data.FIF.gz'' [] []
          = Inr (demo_raw ''mne.io.read_raw_fif'' ''data.FIF.gz'')"
    by simp
  with m long short show ?thesis by simp
qed

text \<open>
  C5: when none of the candidates that \<open>read_raw\<close> tries is registered (as for a file name
  without suffixes, whose candidates are all empty), the call fails with the ValueError
  \<open>Unknown file type\<close>, and the message shows the list of all suffixes of the file name.
\<close>

theorem read_raw_unknown_format:
  assumes "py_max (map count_dots (dict_keys supp)) = Inr m"
    and "\<forall>k. 0 < k \<and> k \<le> m \<longrightarrow> map_of (readers supp sugg) (tail_candidate fname k) = None"
  shows "read_raw supp sugg e fname args kw
           = Inl (ValueError (''Unknown file type '' @ py_repr_list (path_suffixes fname) @ ''.''))"
proof -
  from assms(2)
  have "first_match (readers supp sugg) (path_suffixes fname) (py_range (- int m) 0) = None"
    by (simp add: first_match_range_None tail_candidate_def)
  then show ?thesis
    by (simp add: read_raw_dispatch dispatch_def resolve_def assms(1) unknown_file_type_def)
qed

theorem read_raw_unknown_format_witness:
  "py_max (map count_dots (dict_keys (supported False))) = Inr 2
   \<and> map_of (readers (supported False) suggested) (tail_candidate ''data.unknownext'' 2) = None
   \<and> map_of (readers (supported False) suggested) (tail_candidate ''data.unknownext'' 1) = None
   \<and> read_raw (supported False) suggested demo_env ''data.unknownext'' [] []
       = Inl (ValueError ''Unknown file type ['.unknownext'].'')
   \<and> path_suffixes ''README'' = []
   \<and> read_raw (supported False) suggested demo_env ''README'' [] []
       = Inl (ValueError ''Unknown file type [].'')"
proof -
  have m: "py_max (map count_dots (dict_keys (supported False))) = Inr 2"
    by (rule py_max_supported)
  have two: "k = 1 \<or> k = 2" if "0 < k \<and> k \<le> 2" for k :: nat
    using that by arith
  have u1: "map_of (readers (supported False) suggested) (tail_candidate ''data.unknownext'' 1) = None"
    by code_simp
  have u2: "map_of (readers (supported False) suggested) (tail_candidate ''data.unknownext'' 2) = None"
    by code_simp
  have u: "\<forall>k. 0 < k \<and> k \<le> 2
             \<longrightarrow> map_of (readers (supported False) suggested) (tail_candidate ''data.unknownext'' k) = None"
    using two u1 u2 by blast
  have r1: "map_of (readers (supported False) suggested) (tail_candidate ''README'' 1) = None"
    by code_simp
  have r2: "map_of (readers (supported False) suggested) (tail_candidate ''README'' 2) = None"
    by code_simp
  have r: "\<forall>k. 0 < k \<and> k \<le> 2
             \<longrightarrow> map_of (readers (supported False) suggested) (tail_candidate ''README'' k) = None"
    using two r1 r2 by blast
  have su: "py_repr_list (path_suffixes ''data.unknownext'') = ''['.unknownext']''"
    by code_simp
  have sr: "path_suffixes ''README'' = []"
    by code_simp
  have pr: "py_repr_list [] = ''[]''"
    by code_simp
  from read_raw_unknown_format [OF m u, of demo_env "[]" "[]"] su
  have a: "read_raw (supported False) suggested demo_env ''data.unknownext'' [] []
             = Inl (ValueError ''Unknown file type ['.unknownext'].'')"
    by simp
  from read_raw_unknown_format [OF m r, of demo_env "[]" "[]"] sr pr
  have b: "read_raw (supported False) suggested demo_env ''README'' [] []
             = Inl (ValueError ''Unknown file type [].'')"
    by simp
  from m u1 u2 a sr b show ?thesis by blast
qed

text \<open>
  C9: the suffixes are matched without regard to case. Two file names whose suffixes
  agree once they are lower-cased resolve to the same key and reader, and \<open>read_raw\<close>
  on one of them is the dispatch of what the other resolves to; in particular a file
  name resolves as its lower-cased form does. The keys of the registries that the module
  builds are all in lower case.
\<close>

theorem read_raw_case_insensitive:
  assumes "map py_lower (path_suffixes f) = map py_lower (path_suffixes g)"
  shows "resolve supp sugg f = resolve supp sugg g
       \<and> resolve supp sugg (py_lower f) = resolve supp sugg f
       \<and> read_raw supp sugg e f args kw = dispatch e (resolve supp sugg g) f args kw
       \<and> (key \<in> set (dict_keys (supported b)) \<union> set (dict_keys suggested)
            \<longrightarrow> py_lower key = key)"
proof -
  have eq: "resolve supp sugg a = resolve supp sugg b"
    if "map py_lower (path_suffixes a) = map py_lower (path_suffixes b)" for a b
    using first_match_lower [OF that] by (simp add: resolve_def split: sum.splits)
  have "map py_lower (path_suffixes (py_lower f)) = map py_lower (path_suffixes f)"
    by (simp add: path_suffixes_lower py_lower_idem)
  then have low: "resolve supp sugg (py_lower f) = resolve supp sugg f"
    by (rule eq)
  have fg: "resolve supp sugg f = resolve supp sugg g"
    using assms by (rule eq)
  have "read_raw supp sugg e f args kw = dispatch e (resolve supp sugg f) f args kw"
    by (rule read_raw_dispatch)
  with fg low registry_keys_lower [of key b] show ?thesis by simp
qed

theorem read_raw_case_insensitive_witness:
  "map py_lower (path_suffixes ''Data.EDF'') = map py_lower (path_suffixes ''data.edf'')
   \<and> ''.edf'' \<in> set (dict_keys (supported False)) \<union> set (dict_keys suggested)
   \<and> py_lower ''.edf'' = ''.edf''
   \<and> resolve (supported False) suggested ''Data.EDF''
       = Inr (Some (''.edf'', External ''mne.io.read_raw_edf''))
   \<and> resolve (supported False) suggested ''data.edf''
       = Inr (Some (''.edf'', External ''mne.io.read_raw_edf''))
   \<and> read_raw (supported False) suggested demo_env ''Data.EDF'' [] []
       = Inr (demo_raw ''mne.io.read_raw_edf'' ''Data.EDF'')"
proof -
  have h: "map py_lower (path_suffixes ''Data.EDF'') = map py_lower (path_suffixes ''data.edf'')"
    by code_simp
  have k: "''.edf'' \<in> set (dict_keys (supported False)) \<union> set (dict_keys suggested)"
    by (simp add: keys_supported)
  have r: "resolve (supported False) suggested ''data.edf''
             = Inr (Some (''.edf'', External ''mne.io.read_raw_edf''))"
    by code_simp
  note inst = read_raw_case_insensitive [where supp = "supported False" and sugg = suggested
      and e = demo_env and args = "[]" and kw = "[]" and key = "''.edf''" and b = False, OF h]
  from inst k have l: "py_lower ''.edf'' = ''.edf''"
    by blast
  from inst r
  have "resolve (supported False) suggested ''Data.EDF''
          = Inr (Some (''.edf'', External ''mne.io.read_raw_edf''))
        \<and> read_raw (supported False) suggested demo_env ''Data.EDF'' [] []
          = Inr (demo_raw ''mne.io.read_raw_edf'' ''Data.EDF'')"
    by (simp add: dispatch_def demo_env_def)
  with h k l r show ?thesis by blast
qed



text \<open>
  C2: \<open>readers\<close> never shadows a supported entry. In the dicts that the module builds,
  with or without pyxdf, no suffix is a key of both \<open>supported\<close> and \<open>suggested\<close>, and
  every key of \<open>supported\<close> maps in \<open>readers\<close> to the reader that it has in \<open>supported\<close>.
\<close>

theorem readers_keeps_supported:
  assumes "k \<in> set (dict_keys (supported b))"
  shows "k \<notin> set (dict_keys suggested)
       \<and> map_of (readers (supported b) suggested) k = map_of (supported b) k
       \<and> map_of (readers (supported b) suggested) k \<noteq> None"
proof (intro conjI)
  show no: "k \<notin> set (dict_keys suggested)"
    using assms by (rule supported_not_suggested)
  then have "map_of suggested k = None"
    by (simp add: map_of_eq_None_iff dict_keys_def)
  then show eq: "map_of (readers (supported b) suggested) k = map_of (supported b) k"
    by (simp add: map_of_readers distinct_suggested)
  from assms have "map_of (supported b) k \<noteq> None"
    by (simp add: map_of_eq_None_iff dict_keys_def)
  with eq show "map_of (readers (supported b) suggested) k \<noteq> None"
    by simp
qed

theorem readers_keeps_supported_witness:
  "''.fif.gz'' \<in> set (dict_keys (supported True))
   \<and> ''.fif.gz'' \<notin> set (dict_keys suggested)
   \<and> map_of (supported True) ''.fif.gz'' = Some (External ''mne.io.read_raw_fif'')
   \<and> map_of (readers (supported True) suggested) ''.fif.gz'' = Some (External ''mne.io.read_raw_fif'')"
proof -
  have k: "''.fif.gz'' \<in> set (dict_keys (supported True))"
    by (simp add: keys_supported)
  have f: "map_of (supported True) ''.fif.gz'' = Some (External ''mne.io.read_raw_fif'')"
    by code_simp
  from readers_keeps_supported [OF k] f
  have "''.fif.gz'' \<notin> set (dict_keys suggested)
        \<and> map_of (readers (supported True) suggested) ''.fif.gz''
            = Some (External ''mne.io.read_raw_fif'')"
    by simp
  with k f show ?thesis by blast
qed

section \<open>The unsupported reader\<close>

text \<open>
  C4, as the code has it: called with a file name and named options only,
  \<open>_read_unsupported\<close> always fails with the ValueError \<open>Unsupported file type\<close>. It
  ignores every named option but \<open>suggest\<close>: the value given for \<open>suggest\<close>, unless it is
  \<open>None\<close>, is the format that the message recommends.
\<close>

theorem read_unsupported_named_options:
  assumes "''fname'' \<notin> set (dict_keys kw)"
  shows "call_handler e ReadUnsupported fname [] kw
           = Inl (ValueError (''Unsupported file type ('' @ concat (path_suffixes fname) @ '').''
               @ (case map_of kw ''suggest'' of
                    None \<Rightarrow> []
                  | Some v \<Rightarrow> if v = PyNone then []
                              else '' Try reading a '' @ py_str v @ '' file instead.'')))"
  using assms by (simp add: call_read_unsupported_named)

theorem read_unsupported_named_options_witness:
  "''fname'' \<notin> set (dict_keys [(''preload'', PyObj ''True''), (''suggest'', PyStr ''.vhdr'')])
   \<and> call_handler demo_env ReadUnsupported ''session.vmrk'' []
         [(''preload'', PyObj ''True''), (''suggest'', PyStr ''.vhdr'')]
       = Inl (ValueError ''Unsupported file type (.vmrk). Try reading a .vhdr file instead.'')
   \<and> call_handler demo_env ReadUnsupported ''session.vmrk'' [] [(''preload'', PyObj ''True'')]
       = Inl (ValueError ''Unsupported file type (.vmrk).'')"
proof -
  have k1: "''fname'' \<notin> set (dict_keys [(''preload'', PyObj ''True''), (''suggest'', PyStr ''.vhdr'')])"
    by (simp add: dict_keys_def)
  have k2: "''fname'' \<notin> set (dict_keys [(''preload'', PyObj ''True'')])"
    by (simp add: dict_keys_def)
  have s: "concat (path_suffixes ''session.vmrk'') = ''.vmrk''"
    by code_simp
  from read_unsupported_named_options [OF k1, of demo_env "''session.vmrk''"] s
  have a: "call_handler demo_env ReadUnsupported ''session.vmrk'' []
             [(''preload'', PyObj ''True''), (''suggest'', PyStr ''.vhdr'')]
           = Inl (ValueError ''Unsupported file type (.vmrk). Try reading a .vhdr file instead.'')"
    by simp
  from read_unsupported_named_options [OF k2, of demo_env "''session.vmrk''"] s
  have b: "call_handler demo_env ReadUnsupported ''session.vmrk'' [] [(''preload'', PyObj ''True'')]
           = Inl (ValueError ''Unsupported file type (.vmrk).'')"
    by simp
  from k1 a b show ?thesis by blast
qed

theorem read_unsupported_options_counterexample:
  "call_handler demo_env suggest_vhdr ''session.vmrk'' [] []
     = Inl (ValueError ''Unsupported file type (.vmrk). Try reading a .vhdr file instead.'')
   \<and> call_handler demo_env suggest_vhdr ''session.vmrk'' [] [(''suggest'', PyStr ''.edf'')]
     = Inl (ValueError ''Unsupported file type (.vmrk). Try reading a .edf file instead.'')
   \<and> call_handler demo_env suggest_vhdr ''session.vmrk'' [] [(''suggest'', PyNone)]
     = Inl (ValueError ''Unsupported file type (.vmrk).'')
   \<and> call_handler demo_env suggest_vhdr ''session.vmrk'' [PyInt 250] []
     = Inl (TypeError ''_read_unsupported() takes 1 positional argument but 2 were given'')"
  by code_simp

text \<open>
  C6: in the registries of the module, with or without pyxdf, a file name that resolves to
  a key of \<open>suggested\<close> makes \<open>read_raw\<close>, called with the file name and with named
  options that do not set \<open>suggest\<close>, fail with the ValueError \<open>Unsupported file type\<close>,
  whose message recommends a \<open>.vhdr\<close> file.
\<close>

theorem read_raw_suggested_unsupported:
  assumes "resolve (supported b) suggested fname = Inr (Some (key, h))"
    and "key \<in> set (dict_keys suggested)"
    and "''suggest'' \<notin> set (dict_keys kw)" and "''fname'' \<notin> set (dict_keys kw)"
  shows "read_raw (supported b) suggested e fname [] kw
           = Inl (ValueError (''Unsupported file type ('' @ concat (path_suffixes fname)
                                @ ''). Try reading a .vhdr file instead.''))"
proof -
  have h: "h = suggest_vhdr"
    using assms(1,2) by (rule resolve_suggested_handler)
  let ?kw = "dict_update [(''suggest'', PyStr ''.vhdr'')] kw"
  have call: "read_raw (supported b) suggested e fname [] kw = call_read_unsupported fname [] ?kw"
    by (simp add: read_raw_dispatch dispatch_def assms(1) h suggest_vhdr_def)
  have keys: "''fname'' \<notin> set (dict_keys ?kw)"
    using assms(4) by (simp add: keys_dict_update) (simp add: dict_keys_def)
  have sug: "map_of ?kw ''suggest'' = Some (PyStr ''.vhdr'')"
    using assms(3) by (simp add: map_of_dict_update_other)
  show ?thesis
    unfolding call call_read_unsupported_named [OF keys] sug by simp
qed

theorem read_raw_suggested_unsupported_witness:
  "resolve (supported True) suggested ''session.vmrk'' = Inr (Some (''.vmrk'', suggest_vhdr))
   \<and> ''.vmrk'' \<in> set (dict_keys suggested)
   \<and> read_raw (supported True) suggested demo_env ''session.vmrk'' [] [(''preload'', PyObj ''True'')]
       = Inl (ValueError ''Unsupported file type (.vmrk). Try reading a .vhdr file instead.'')
   \<and> resolve (supported False) suggested ''rec.EEG'' = Inr (Some (''.eeg'', suggest_vhdr))
   \<and> read_raw (supported False) suggested demo_env ''rec.EEG'' [] []
       = Inl (ValueError ''Unsupported file type (.EEG). Try reading a .vhdr file instead.'')"
proof -
  have r1: "resolve (supported True) suggested ''session.vmrk'' = Inr (Some (''.vmrk'', suggest_vhdr))"
    by code_simp
  have r2: "resolve (supported False) suggested ''rec.EEG'' = Inr (Some (''.eeg'', suggest_vhdr))"
    by code_simp
  have k1: "''.vmrk'' \<in> set (dict_keys suggested)" and k2: "''.eeg'' \<in> set (dict_keys suggested)"
    by (simp_all add: keys_suggested)
  have o1: "''suggest'' \<notin> set (dict_keys [(''preload'', PyObj ''True'')])"
    and o2: "''fname'' \<notin> set (dict_keys [(''preload'', PyObj ''True'')])"
    by (simp_all add: dict_keys_def)
  have o3: "''suggest'' \<notin> set (dict_keys ([] :: kwargs))"
    and o4: "''fname'' \<notin> set (dict_keys ([] :: kwargs))"
    by (simp_all add: dict_keys_def)
  have s1: "concat (path_suffixes ''session.vmrk'') = ''.vmrk''"
    by code_simp
  have s2: "concat (path_suffixes ''rec.EEG'') = ''.EEG''"
    by code_simp
  from read_raw_suggested_unsupported [OF r1 k1 o1 o2, of demo_env] s1
  have a: "read_raw (supported True) suggested demo_env ''session.vmrk'' [] [(''preload'', PyObj ''True'')]
             = Inl (ValueError ''Unsupported file type (.vmrk). Try reading a .vhdr file instead.'')"
    by simp
  from read_raw_suggested_unsupported [OF r2 k2 o3 o4, of demo_env] s2
  have b: "read_raw (supported False) suggested demo_env ''rec.EEG'' [] []
             = Inl (ValueError ''Unsupported file type (.EEG). Try reading a .vhdr file instead.'')"
    by simp
  from r1 k1 a r2 b show ?thesis by blast
qed

text \<open>
  C10: the suffix in the message of the unsupported reader is not the key that was
  matched. It is computed again from the file name, as all of its suffixes joined, in
  the case they are written in. When the file name has more suffixes than the key has
  components, the message therefore shows a longer suffix than the key.
\<close>

theorem unsupported_message_all_suffixes:
  assumes "resolve supp sugg fname = Inr (Some (key, Partial ReadUnsupported pkw))"
    and "''fname'' \<notin> set (dict_keys pkw) \<union> set (dict_keys kw)"
  shows "read_raw supp sugg e fname [] kw
           = Inl (ValueError (''Unsupported file type ('' @ concat (path_suffixes fname) @ '').''
               @ (case map_of (dict_update pkw kw) ''suggest'' of
                    None \<Rightarrow> []
                  | Some v \<Rightarrow> if v = PyNone then []
                              else '' Try reading a '' @ py_str v @ '' file instead.'')))
       \<and> (count_dots key < length (path_suffixes fname) \<longrightarrow> concat (path_suffixes fname) \<noteq> key)"
proof
  have call: "read_raw supp sugg e fname [] kw
                = call_read_unsupported fname [] (dict_update pkw kw)"
    by (simp add: read_raw_dispatch dispatch_def assms(1))
  have keys: "''fname'' \<notin> set (dict_keys (dict_update pkw kw))"
    using assms(2) by (simp add: keys_dict_update)
  show "read_raw supp sugg e fname [] kw
          = Inl (ValueError (''Unsupported file type ('' @ concat (path_suffixes fname) @ '').''
              @ (case map_of (dict_update pkw kw) ''suggest'' of
                   None \<Rightarrow> []
                 | Some v \<Rightarrow> if v = PyNone then []
                             else '' Try reading a '' @ py_str v @ '' file instead.'')))"
    unfolding call by (rule call_read_unsupported_named [OF keys])
next
  have "count_dots (concat (path_suffixes fname)) = length (path_suffixes fname)"
    by (rule count_dots_concat) (rule count_dots_suffix)
  then show "count_dots key < length (path_suffixes fname) \<longrightarrow> concat (path_suffixes fname) \<noteq> key"
    by auto
qed

theorem unsupported_message_all_suffixes_witness:
  "resolve (supported False) suggested ''a.b.vmrk''
     = Inr (Some (''.vmrk'', Partial ReadUnsupported [(''suggest'', PyStr ''.vhdr'')]))
   \<and> count_dots ''.vmrk'' < length (path_suffixes ''a.b.vmrk'')
   \<and> read_raw (supported False) suggested demo_env ''a.b.vmrk'' [] []
       = Inl (ValueError ''Unsupported file type (.b.vmrk). Try reading a .vhdr file instead.'')
   \<and> concat (path_suffixes ''a.b.vmrk'') \<noteq> ''.vmrk''"
proof -
  have r: "resolve (supported False) suggested ''a.b.vmrk''
             = Inr (Some (''.vmrk'', Partial ReadUnsupported [(''suggest'', PyStr ''.vhdr'')]))"
    by code_simp
  have k: "''fname'' \<notin> set (dict_keys [(''suggest'', PyStr ''.vhdr'')]) \<union> set (dict_keys ([] :: kwargs))"
    by (simp add: dict_keys_def)
  have c: "count_dots ''.vmrk'' < length (path_suffixes ''a.b.vmrk'')"
    by code_simp
  have s: "concat (path_suffixes ''a.b.vmrk'') = ''.b.vmrk''"
    by code_simp
  have u: "dict_update [(''suggest'', PyStr ''.vhdr'')] ([] :: kwargs) = [(''suggest'', PyStr ''.vhdr'')]"
    by (simp add: dict_update_def)
  from unsupported_message_all_suffixes [OF r k, of demo_env] c
  have "read_raw (supported False) suggested demo_env ''a.b.vmrk'' [] []
          = Inl (ValueError ''Unsupported file type (.b.vmrk). Try reading a .vhdr file instead.'')
        \<and> concat (path_suffixes ''a.b.vmrk'') \<noteq> ''.vmrk''"
    unfolding u s by simp
  with r c show ?thesis by blast
qed

end
